theory Spec2Isabelle
  imports Complex_Main "HOL-Library.Multiset" "HOL-Library.Product_Lexorder"
begin

section \<open>Errors\<close>

text \<open>
  The notebooks never catch an exception: an out-of-range index, a rejected argument of a
  library routine, a number too large to convert or a failing SQL statement ends the call.
  Each is a value here.
\<close>

datatype error = IndexError | ValueError | OverflowError | DatabaseError

section \<open>Precision at k (notebook 07-3, machine learning models: \<open>precision_at_k\<close>)\<close>

subsection \<open>Double-precision arithmetic\<close>

text \<open>
  A Python float is a double.  A finite double is carried as the rational it denotes, and
  an operation on doubles is the exact operation followed by rounding to the nearest
  double, ties to the even significand: 53 bits of significand, least binary exponent
  \<open>-1022\<close>, below which the spacing stays \<open>2^-1074\<close>.  A result beyond the largest double
  is infinite.
\<close>

function bit_length :: "int \<Rightarrow> nat" where
  \<comment> \<open>the number of binary digits of a positive integer\<close>
  "bit_length n = (if n \<le> 0 then 0 else Suc (bit_length (n div 2)))"
  by pat_completeness auto
termination
  by (relation "measure nat") auto

declare bit_length.simps [simp del]

definition pow2 :: "int \<Rightarrow> rat" where
  "pow2 e = (if 0 \<le> e then 2 ^ nat e else 1 / 2 ^ nat (- e))"

definition exponent :: "rat \<Rightarrow> int" where
  \<comment> \<open>for \<open>x > 0\<close>, the \<open>e\<close> with \<open>2^e \<le> x < 2^(e+1)\<close>\<close>
  "exponent x =
     (if 1 \<le> x then int (bit_length \<lfloor>x\<rfloor>) - 1
      else - int (bit_length (\<lceil>1 / x\<rceil> - 1)))"

definition round_half_even :: "rat \<Rightarrow> int" where
  "round_half_even q =
     (let f = \<lfloor>q\<rfloor>; r = q - of_int f
      in if r < 1 / 2 then f else if 1 / 2 < r then f + 1
         else if even f then f else f + 1)"

definition round_double :: "rat \<Rightarrow> rat" where
  "round_double x =
     (if x = 0 then 0
      else let ulp = pow2 (max (exponent \<bar>x\<bar>) (- 1022) - 52)
           in of_int (round_half_even (x / ulp)) * ulp)"

definition max_double :: rat where
  "max_double = (2 ^ 53 - 1) * 2 ^ 971"

subsection \<open>The function\<close>

text \<open>
  \<^verbatim>\<open>
  def precision_at_k(y_true, y_scores,k):
      threshold = np.sort(y_scores)[::-1][int(k*len(y_scores))]
      y_pred = np.asarray([1 if i >= threshold else 0 for i in y_scores ])
      return precision_score(y_true, y_pred)
  \<close>
  \<open>k\<close> is a Python int or a finite float; scores are finite doubles, labels integers.
\<close>

datatype pynum = PyInt int | PyFloat rat

definition times_len :: "pynum \<Rightarrow> nat \<Rightarrow> error + rat" where
  \<comment> \<open>\<open>k*len(y_scores)\<close>.  With an int \<open>k\<close> the product is an exact int.  With a float
      \<open>k\<close> the length is converted to a double (OverflowError when it is too large for
      one) and the product is rounded; an infinite product is carried as the
      OverflowError that \<open>int()\<close> raises on it.\<close>
  "times_len k n =
     (case k of
        PyInt i \<Rightarrow> Inr (of_int (i * int n))
      | PyFloat x \<Rightarrow>
          let nf = round_double (rat_of_nat n)
          in if max_double < nf then Inl OverflowError
             else let p = round_double (x * nf)
                  in if max_double < \<bar>p\<bar> then Inl OverflowError else Inr p)"

definition py_int :: "rat \<Rightarrow> int" where
  \<comment> \<open>Python's \<open>int()\<close> on a number: truncation towards zero.\<close>
  "py_int q = (if 0 \<le> q then \<lfloor>q\<rfloor> else \<lceil>q\<rceil>)"

definition getitem :: "'a list \<Rightarrow> int \<Rightarrow> error + 'a" where
  \<comment> \<open>\<open>a[i]\<close> on a numpy array: positions \<open>0 .. len - 1\<close> from the front,
      \<open>-1 .. -len\<close> from the back, anything else is out of bounds.\<close>
  "getitem xs i =
     (if 0 \<le> i \<and> i < int (length xs) then Inr (xs ! nat i)
      else if i < 0 \<and> - int (length xs) \<le> i then Inr (xs ! nat (int (length xs) + i))
      else Inl IndexError)"

definition labels_present :: "int list \<Rightarrow> int list \<Rightarrow> int list" where
  "labels_present y_true y_pred = remdups (y_true @ y_pred)"

definition true_positives :: "int list \<Rightarrow> int list \<Rightarrow> nat" where
  "true_positives y_true y_pred =
     length (filter (\<lambda>(t, p). p = 1 \<and> t = 1) (zip y_true y_pred))"

definition false_positives :: "int list \<Rightarrow> int list \<Rightarrow> nat" where
  "false_positives y_true y_pred =
     length (filter (\<lambda>(t, p). p = 1 \<and> t \<noteq> 1) (zip y_true y_pred))"

definition divide_counts :: "nat \<Rightarrow> nat \<Rightarrow> rat" where
  \<comment> \<open>the quotient of two counts as doubles\<close>
  "divide_counts a b =
     round_double (round_double (rat_of_nat a) / round_double (rat_of_nat b))"

definition precision_score :: "int list \<Rightarrow> int list \<Rightarrow> error + rat" where
  \<comment> \<open>Contract of the library routine \<open>sklearn.metrics.precision_score\<close> as the notebook
      calls it (binary average, positive label 1) on integer label vectors: vectors of
      different lengths, more than two labels, or two labels without the positive one are
      rejected; otherwise tp / (tp + fp) as a double, and 0 when nothing is predicted
      positive.\<close>
  "precision_score y_true y_pred =
     (if length y_true \<noteq> length y_pred then Inl ValueError
      else if 2 < length (labels_present y_true y_pred) then Inl ValueError
      else if 1 \<notin> set (labels_present y_true y_pred)
              \<and> 2 \<le> length (labels_present y_true y_pred) then Inl ValueError
      else let tp = true_positives y_true y_pred; fp = false_positives y_true y_pred
           in if tp + fp = 0 then Inr 0
              else Inr (divide_counts tp (tp + fp)))"

definition predict_at :: "rat \<Rightarrow> rat list \<Rightarrow> int list" where
  \<comment> \<open>\<open>[1 if i >= threshold else 0 for i in y_scores]\<close>\<close>
  "predict_at threshold y_scores = map (\<lambda>i. if threshold \<le> i then 1 else 0) y_scores"

definition precision_at_k :: "int list \<Rightarrow> rat list \<Rightarrow> pynum \<Rightarrow> error + rat" where
  "precision_at_k y_true y_scores k =
     (case times_len k (length y_scores) of
        Inl e \<Rightarrow> Inl e
      | Inr p \<Rightarrow>
          (case getitem (rev (sort y_scores)) (py_int p) of
             Inl e \<Rightarrow> Inl e
           | Inr threshold \<Rightarrow> precision_score y_true (predict_at threshold y_scores)))"

text \<open>
  The input of the spec's example: the doubles that the literals denote.
\<close>

definition example_y_true :: "int list" where
  "example_y_true = [1, 0, 1, 0, 1, 0, 0, 0, 0, 0]"

definition example_y_scores :: "rat list" where
  "example_y_scores =
     map round_double [9/10, 8/10, 7/10, 6/10, 5/10, 4/10, 3/10, 2/10, 1/10, 5/100]"



section \<open>Label tables (notebook 03-2, creating labels: \<open>generate_labels\<close>)\<close>

subsection \<open>Dates of the database engine\<close>

text \<open>
  A date is (year, month, day), ordered lexicographically, which is the order of the
  calendar.  The two functions below are the engine's side of the SQL text: the cast
  \<open>'...'::date\<close> of a string in ISO form \<open>YYYY-MM-DD\<close>, and adding or subtracting
  \<open>'n months'::interval\<close>, which shifts the month and clamps the day to the last day of
  the month reached.  The result of the latter is a timestamp at midnight, compared with a
  date column as a date.
\<close>

type_synonym date = "int \<times> int \<times> int"

definition is_leap :: "int \<Rightarrow> bool" where
  "is_leap y = (y mod 4 = 0 \<and> (y mod 100 \<noteq> 0 \<or> y mod 400 = 0))"

definition days_in_month :: "int \<Rightarrow> int \<Rightarrow> int" where
  "days_in_month y m =
     (if m = 2 then (if is_leap y then 29 else 28)
      else if m = 4 \<or> m = 6 \<or> m = 9 \<or> m = 11 then 30 else 31)"

definition add_months :: "date \<Rightarrow> int \<Rightarrow> date" where
  "add_months dt n =
     (case dt of (y, m, d) \<Rightarrow>
        let t = y * 12 + (m - 1) + n; y' = t div 12; m' = t mod 12 + 1
        in (y', m', min d (days_in_month y' m')))"

definition sub_months :: "date \<Rightarrow> int \<Rightarrow> date" where
  "sub_months dt n = add_months dt (- n)"

definition digit :: "char \<Rightarrow> int option" where
  "digit c = map_of [(CHR ''0'', 0), (CHR ''1'', 1), (CHR ''2'', 2), (CHR ''3'', 3),
     (CHR ''4'', 4), (CHR ''5'', 5), (CHR ''6'', 6), (CHR ''7'', 7), (CHR ''8'', 8),
     (CHR ''9'', 9)] c"

fun number :: "int \<Rightarrow> string \<Rightarrow> int option" where
  "number acc [] = Some acc"
| "number acc (c # cs) =
     (case digit c of None \<Rightarrow> None | Some v \<Rightarrow> number (acc * 10 + v) cs)"

definition to_date :: "string \<Rightarrow> date option" where
  "to_date s =
     (if length s = 10 \<and> s ! 4 = CHR ''-'' \<and> s ! 7 = CHR ''-'' then
        (case (number 0 (take 4 s), number 0 (take 2 (drop 5 s)), number 0 (drop 8 s)) of
           (Some y, Some m, Some d) \<Rightarrow>
             if 1 \<le> y \<and> 1 \<le> m \<and> m \<le> 12 \<and> 1 \<le> d \<and> d \<le> days_in_month y m
             then Some (y, m, d) else None
         | _ \<Rightarrow> None)
      else None)"

subsection \<open>Tables\<close>

text \<open>
  \<open>il_dhs.ind_spells\<close> has the columns the queries read; all four are taken to be filled
  (no NULL).  The cohort tables hold the three selected columns, a label table adds the
  label.  The database is the spells table and the label tables written so far, keyed by
  schema and table name; the two temporary tables live in the connection that
  \<open>generate_labels\<close> opens and are gone with it.
\<close>

record spell_row =
  recptno :: int
  start_date :: date
  end_date :: date

record spell = spell_row +
  benefit_type :: string

record label_row = spell_row +
  label :: int

record database =
  ind_spells :: "spell list"
  tables :: "string \<times> string \<rightharpoonup> label_row list"

definition select_row :: "'a spell_row_scheme \<Rightarrow> spell_row" where
  \<comment> \<open>\<open>SELECT recptno, start_date, end_date\<close>\<close>
  "select_row s = \<lparr>recptno = recptno s, start_date = start_date s, end_date = end_date s\<rparr>"

subsection \<open>The three queries\<close>

text \<open>
  \<^verbatim>\<open>
  CREATE TEMP TABLE cohort_{tbl_suffix} AS
  SELECT recptno, start_date, end_date
  FROM il_dhs.ind_spells
  WHERE end_date >= (('{pred_date}'::date - '{months_off} months'::interval)
                       -'{months_back} months'::interval)
      AND end_date < ('{pred_date}'::date - '{months_off} months'::interval)
          AND benefit_type = 'tanf46';
  \<close>
\<close>

definition in_cohort_window :: "date \<Rightarrow> int \<Rightarrow> int \<Rightarrow> spell \<Rightarrow> bool" where
  "in_cohort_window pred_date months_off months_back s =
     (sub_months (sub_months pred_date months_off) months_back \<le> end_date s
      \<and> end_date s < sub_months pred_date months_off
      \<and> benefit_type s = ''tanf46'')"

definition cohort :: "spell list \<Rightarrow> date \<Rightarrow> int \<Rightarrow> int \<Rightarrow> spell_row list" where
  "cohort spells pred_date months_off months_back =
     map select_row (filter (in_cohort_window pred_date months_off months_back) spells)"

text \<open>
  \<^verbatim>\<open>
  CREATE TEMP TABLE cohort_returned_{tbl_suffix} AS
  SELECT DISTINCT ON (recptno) recptno, start_date, end_date
  FROM il_dhs.ind_spells
  WHERE start_date >= '{pred_date}'::date
      AND start_date < ('{pred_date}'::date + '{months_ahead} months'::interval)
      AND benefit_type = 'tanf46'
      AND recptno IN (SELECT recptno FROM cohort_{tbl_suffix})
  ORDER BY recptno, start_date;
  \<close>
  \<open>ORDER BY\<close> is a stable sort of the rows in scan order; \<open>DISTINCT ON\<close> keeps the first
  row of every run of rows with equal key.
\<close>

fun distinct_on :: "('a \<Rightarrow> 'k) \<Rightarrow> 'a list \<Rightarrow> 'a list" where
  "distinct_on f [] = []"
| "distinct_on f [x] = [x]"
| "distinct_on f (x # y # xs) =
     (if f x = f y then distinct_on f (x # xs) else x # distinct_on f (y # xs))"

definition in_forward_window :: "date \<Rightarrow> int \<Rightarrow> spell \<Rightarrow> bool" where
  "in_forward_window pred_date months_ahead s =
     (pred_date \<le> start_date s
      \<and> start_date s < add_months pred_date months_ahead
      \<and> benefit_type s = ''tanf46'')"

definition cohort_returned ::
  "spell list \<Rightarrow> spell_row list \<Rightarrow> date \<Rightarrow> int \<Rightarrow> spell_row list" where
  "cohort_returned spells cohort_tbl pred_date months_ahead =
     distinct_on recptno
       (sort_key (\<lambda>r. (recptno r, start_date r))
          (map select_row
             (filter (\<lambda>s. in_forward_window pred_date months_ahead s
                          \<and> recptno s \<in> set (map recptno cohort_tbl)) spells)))"

text \<open>
  \<^verbatim>\<open>
  CREATE TABLE {schema}.labels_{tbl_suffix} AS
  SELECT a.recptno, a.start_date, a.end_date,
      CASE WHEN b.recptno IS NULL THEN 0 ELSE 1 END as label
  FROM cohort_{tbl_suffix} a
  LEFT JOIN cohort_returned_{tbl_suffix} b
  ON a.recptno = b.recptno;
  \<close>
  A left row without a partner is joined with NULLs (\<open>None\<close>).
\<close>

definition left_join ::
  "('a \<Rightarrow> 'b \<Rightarrow> bool) \<Rightarrow> 'a list \<Rightarrow> 'b list \<Rightarrow> ('a \<times> 'b option) list" where
  "left_join on as bs =
     concat (map (\<lambda>a. case filter (on a) bs of
                          [] \<Rightarrow> [(a, None)]
                        | m # ms \<Rightarrow> map (\<lambda>b. (a, Some b)) (m # ms)) as)"

definition select_label :: "spell_row \<times> spell_row option \<Rightarrow> label_row" where
  "select_label ab =
     (case ab of (a, b) \<Rightarrow>
        \<lparr>recptno = recptno a, start_date = start_date a, end_date = end_date a,
         label = (case b of None \<Rightarrow> 0 | Some _ \<Rightarrow> 1)\<rparr>)"

definition joined ::
  "spell list \<Rightarrow> date \<Rightarrow> int \<Rightarrow> int \<Rightarrow> int \<Rightarrow> (spell_row \<times> spell_row option) list" where
  "joined spells pred_date months_off months_back months_ahead =
     (let a = cohort spells pred_date months_off months_back;
          b = cohort_returned spells a pred_date months_ahead
      in left_join (\<lambda>a b. recptno a = recptno b) a b)"

definition labels ::
  "spell list \<Rightarrow> date \<Rightarrow> int \<Rightarrow> int \<Rightarrow> int \<Rightarrow> label_row list" where
  "labels spells pred_date months_off months_back months_ahead =
     map select_label (joined spells pred_date months_off months_back months_ahead)"

subsection \<open>\<open>generate_labels\<close>\<close>

text \<open>
  \<^verbatim>\<open>
  def generate_labels(preddate, months_off=12, months_back=3, months_ahead=24,
                      schema=myschema, overwrite=False):
      tbl_suffix = preddate.replace('-', '') #remove dashes
      sql = """ ... """.format(...)
      cursor.execute(""" SELECT * FROM pg_tables
          WHERE tablename = 'labels_{tbl_suffix}' AND schemaname = '{schema}'; """)
      if not(cursor.rowcount) or overwrite:
          cursor.execute(sql)
      df = pd.read_sql(""" SELECT * FROM {schema}.labels_{tbl_suffix} """, conn)
      return df
  \<close>
  The script drops the label table if it is there and creates it again.  It fails at the
  cast of a prediction date the engine rejects; the schema and the role that receives the
  table are taken to exist.  The model returns the database after the call together with
  the rows read back.
\<close>

definition tbl_suffix :: "string \<Rightarrow> string" where
  "tbl_suffix preddate = filter (\<lambda>c. c \<noteq> CHR ''-'') preddate"

definition labels_table :: "string \<Rightarrow> string \<Rightarrow> string \<times> string" where
  "labels_table schema preddate = (schema, ''labels_'' @ tbl_suffix preddate)"

definition execute_sql ::
  "database \<Rightarrow> string \<Rightarrow> int \<Rightarrow> int \<Rightarrow> int \<Rightarrow> string \<Rightarrow> error + database" where
  "execute_sql db preddate months_off months_back months_ahead schema =
     (case to_date preddate of
        None \<Rightarrow> Inl DatabaseError
      | Some pred_date \<Rightarrow>
          Inr (db\<lparr>tables := (tables db)(labels_table schema preddate \<mapsto>
                 labels (ind_spells db) pred_date months_off months_back months_ahead)\<rparr>))"

definition read_sql :: "database \<Rightarrow> string \<times> string \<Rightarrow> error + database \<times> label_row list" where
  "read_sql db name =
     (case tables db name of None \<Rightarrow> Inl DatabaseError | Some rows \<Rightarrow> Inr (db, rows))"

definition rowcount :: "database \<Rightarrow> string \<times> string \<Rightarrow> nat" where
  \<comment> \<open>rows of \<open>pg_tables\<close> for the schema and table name\<close>
  "rowcount db name = (case tables db name of None \<Rightarrow> 0 | Some _ \<Rightarrow> 1)"

definition generate_labels ::
  "database \<Rightarrow> string \<Rightarrow> int \<Rightarrow> int \<Rightarrow> int \<Rightarrow> string \<Rightarrow> bool
     \<Rightarrow> error + database \<times> label_row list" where
  "generate_labels db preddate months_off months_back months_ahead schema overwrite =
     (if rowcount db (labels_table schema preddate) = 0 \<or> overwrite then
        (case execute_sql db preddate months_off months_back months_ahead schema of
           Inl e \<Rightarrow> Inl e
         | Inr db' \<Rightarrow> read_sql db' (labels_table schema preddate))
      else read_sql db (labels_table schema preddate))"

subsection \<open>The scenario: entities A, B, C\<close>

text \<open>
  Prediction date 2008-01-01, twelve months off, three months back: the cohort window is
  2006-10-01 to 2006-12-31.  Entities 1 (A), 2 (B) and 3 (C) each have one spell ending in
  it.  With two months ahead the forward window is day 0 to day 60 after the prediction
  date: A returns on day 31, B has no further spell of this benefit, C returns on day 40
  (scanned first) and on day 5.
\<close>

definition scenario_spells :: "spell list" where
  "scenario_spells =
     [\<lparr>recptno = 3, start_date = (2008, 2, 10), end_date = (2008, 5, 1),
        benefit_type = ''tanf46''\<rparr>,
      \<lparr>recptno = 1, start_date = (2006, 1, 1), end_date = (2006, 11, 15),
        benefit_type = ''tanf46''\<rparr>,
      \<lparr>recptno = 1, start_date = (2008, 2, 1), end_date = (2008, 6, 1),
        benefit_type = ''tanf46''\<rparr>,
      \<lparr>recptno = 2, start_date = (2006, 5, 1), end_date = (2006, 12, 1),
        benefit_type = ''tanf46''\<rparr>,
      \<lparr>recptno = 3, start_date = (2006, 3, 1), end_date = (2006, 10, 20),
        benefit_type = ''tanf46''\<rparr>,
      \<lparr>recptno = 3, start_date = (2008, 1, 6), end_date = (2008, 1, 20),
        benefit_type = ''tanf46''\<rparr>,
      \<lparr>recptno = 2, start_date = (2008, 1, 6), end_date = (2008, 1, 20),
        benefit_type = ''foodstamp''\<rparr>]"

definition scenario_db :: database where
  "scenario_db = \<lparr>ind_spells = scenario_spells, tables = Map.empty\<rparr>"



section \<open>Training and test matrix (notebook 07-3, machine learning models)\<close>

text \<open>
  \<^verbatim>\<open>
  create table train_matrix as
  select l.inmate_doc_number, l.recidivism, f.num_admits, f.length_longest_sentence,
         f.age_first_admit, f.age
  from recidivism_labels_2009_2013 l
  left join features_2000_2008 f on f.inmate_doc_number = l.inmate_doc_number;
  \<close>
  The test matrix is the same query on the tables of the later period.  The label and the
  feature table are written by \<open>create_labels\<close> and \<open>create_features\<close>, which are imported
  from scripts; they are inputs here.  Every column may hold NULL (\<open>None\<close>), and the
  comparison of the join is SQL's: it holds only between two equal values that are both
  present.
\<close>

record label_entry =
  l_inmate_doc_number :: "string option"
  l_recidivism :: "int option"

record feature_entry =
  f_inmate_doc_number :: "string option"
  f_num_admits :: "rat option"
  f_length_longest_sentence :: "rat option"
  f_age_first_admit :: "rat option"
  f_age :: "rat option"

record matrix_row =
  inmate_doc_number :: "string option"
  recidivism :: "int option"
  num_admits :: "rat option"
  length_longest_sentence :: "rat option"
  age_first_admit :: "rat option"
  age :: "rat option"

definition sql_eq :: "'a option \<Rightarrow> 'a option \<Rightarrow> bool" where
  "sql_eq x y = (case (x, y) of (Some a, Some b) \<Rightarrow> a = b | _ \<Rightarrow> False)"

definition select_matrix :: "label_entry \<times> feature_entry option \<Rightarrow> matrix_row" where
  "select_matrix lf =
     (case lf of (l, f) \<Rightarrow>
        \<lparr>inmate_doc_number = l_inmate_doc_number l,
         recidivism = l_recidivism l,
         num_admits = Option.bind f f_num_admits,
         length_longest_sentence = Option.bind f f_length_longest_sentence,
         age_first_admit = Option.bind f f_age_first_admit,
         age = Option.bind f f_age\<rparr>)"

definition train_matrix :: "label_entry list \<Rightarrow> feature_entry list \<Rightarrow> matrix_row list" where
  "train_matrix ls fs =
     map select_matrix
       (left_join (\<lambda>l f. sql_eq (f_inmate_doc_number f) (l_inmate_doc_number l)) ls fs)"

text \<open>
  \<^verbatim>\<open>
  isnan_training_rows = df_training.isnull().any(axis=1)
  nrows_training_isnan = df_training[isnan_training_rows].shape[0]
  df_training = df_training[~isnan_training_rows]
  keep = (df_training['age_first_admit'] >= 14) & (df_training['age_first_admit'] <= 99)
  df_training = df_training[keep]
  \<close>
\<close>

definition isnan_rows :: "matrix_row \<Rightarrow> bool" where
  "isnan_rows r =
     (inmate_doc_number r = None \<or> recidivism r = None \<or> num_admits r = None
      \<or> length_longest_sentence r = None \<or> age_first_admit r = None \<or> age r = None)"

definition nrows_isnan :: "matrix_row list \<Rightarrow> nat" where
  "nrows_isnan df = length (filter isnan_rows df)"

definition drop_isnan :: "matrix_row list \<Rightarrow> matrix_row list" where
  "drop_isnan df = filter (\<lambda>r. \<not> isnan_rows r) df"

definition keep :: "matrix_row \<Rightarrow> bool" where
  \<comment> \<open>a comparison with a missing value is false\<close>
  "keep r = (case age_first_admit r of None \<Rightarrow> False | Some a \<Rightarrow> 14 \<le> a \<and> a \<le> 99)"

definition nrows_out_of_range :: "matrix_row list \<Rightarrow> nat" where
  "nrows_out_of_range df = length (filter (\<lambda>r. \<not> keep r) (drop_isnan df))"

definition clean :: "matrix_row list \<Rightarrow> matrix_row list" where
  "clean df = filter keep (drop_isnan df)"

text \<open>A label table with one entity and a feature table with two rows for it.\<close>

definition one_label :: "label_entry list" where
  "one_label = [\<lparr>l_inmate_doc_number = Some ''0000004'', l_recidivism = Some 1\<rparr>]"

definition two_features :: "feature_entry list" where
  "two_features =
     [\<lparr>f_inmate_doc_number = Some ''0000004'', f_num_admits = Some 1,
        f_length_longest_sentence = Some 365, f_age_first_admit = Some 20, f_age = Some 30\<rparr>,
      \<lparr>f_inmate_doc_number = Some ''0000004'', f_num_admits = Some 2,
        f_length_longest_sentence = Some 730, f_age_first_admit = Some 20, f_age = Some 30\<rparr>]"

text \<open>Three labelled entities: one without features, one too young, one kept.\<close>

definition three_labels :: "label_entry list" where
  "three_labels =
     [\<lparr>l_inmate_doc_number = Some ''0000004'', l_recidivism = Some 1\<rparr>,
      \<lparr>l_inmate_doc_number = Some ''0000006'', l_recidivism = Some 0\<rparr>,
      \<lparr>l_inmate_doc_number = Some ''0000008'', l_recidivism = Some 0\<rparr>]"

definition three_features :: "feature_entry list" where
  "three_features =
     [\<lparr>f_inmate_doc_number = Some ''0000008'', f_num_admits = Some 1,
        f_length_longest_sentence = Some 365, f_age_first_admit = Some 20, f_age = Some 30\<rparr>,
      \<lparr>f_inmate_doc_number = Some ''0000006'', f_num_admits = Some 2,
        f_length_longest_sentence = Some 730, f_age_first_admit = Some 12, f_age = Some 30\<rparr>,
      \<lparr>f_inmate_doc_number = Some ''0000009'', f_num_admits = Some 2,
        f_length_longest_sentence = Some 730, f_age_first_admit = Some 40, f_age = Some 50\<rparr>]"

section \<open>Properties of precision at k\<close>

subsection \<open>Rounding\<close>

lemma bit_length_bounds:
  "0 < n \<Longrightarrow> 2 ^ (bit_length n - 1) \<le> n \<and> n < 2 ^ bit_length n"
proof (induction n rule: bit_length.induct)
  case (1 n)
  show ?case
  proof (cases "n div 2 \<le> 0")
    case True
    with 1 have "n = 1" by linarith
    then show ?thesis by (simp add: bit_length.simps)
  next
    case False
    then have pos: "0 < n div 2" by simp
    with "1.IH" "1.prems" have ih: "2 ^ (bit_length (n div 2) - 1) \<le> n div 2"
      "n div 2 < 2 ^ bit_length (n div 2)" by simp_all
    from pos have bl: "0 < bit_length (n div 2)" by (subst bit_length.simps) simp
    have eq: "bit_length n = Suc (bit_length (n div 2))"
      using "1.prems" by (subst bit_length.simps) simp
    from bl obtain j where j: "bit_length (n div 2) = Suc j" by (cases "bit_length (n div 2)") auto
    have d: "n = 2 * (n div 2) + n mod 2" by simp
    have r: "0 \<le> n mod 2" "n mod 2 < 2" by simp_all
    have A: "(2::int) ^ Suc j \<le> 2 * (n div 2)" using ih(1) j by simp
    have B: "2 * (n div 2) + 2 \<le> 2 ^ Suc (Suc j)" using ih(2) j by simp
    from d r A have "2 ^ Suc j \<le> n" by linarith
    moreover from d r B have "n < 2 ^ Suc (Suc j)" by linarith
    ultimately show ?thesis using eq j by simp
  qed
qed

lemma round_half_even_of_int: "round_half_even (of_int z) = z"
  by (simp add: round_half_even_def)

lemma round_double_of_int:
  assumes "0 \<le> m" and "m \<le> 2 ^ 53"
  shows "round_double (of_int m) = of_int m"
proof (cases "m = 0")
  case True
  then show ?thesis by (simp add: round_double_def)
next
  case False
  with assms have pos: "0 < m" by simp
  define b where "b = bit_length m"
  from bit_length_bounds [OF pos] have lo: "2 ^ (b - 1) \<le> m" and hi: "m < 2 ^ b"
    by (simp_all add: b_def)
  from hi pos have b0: "0 < b" by (cases b) auto
  have le53: "(2::int) ^ (b - 1) \<le> 2 ^ 53" using lo assms(2) by linarith
  have "(1::int) < 2" by simp
  from this le53 have b54: "b - 1 \<le> 53" by (rule power_le_imp_le_exp)
  have ex: "exponent \<bar>of_int m\<bar> = int b - 1"
    using pos by (simp add: exponent_def b_def)
  have mx: "max (int b - 1) (- 1022) - 52 = int b - 53" by simp
  show ?thesis
  proof (cases "b - 1 = 53")
    case True
    with lo assms(2) have m: "m = 2 ^ 53" by simp
    show ?thesis unfolding m by code_simp
  next
    case False
    with b54 have le: "b \<le> 53" by simp
    define j where "j = 53 - b"
    have "int b - 53 = - int j" using le by (simp add: j_def)
    then have p: "pow2 (int b - 53) = 1 / 2 ^ j"
      by (cases "j = 0") (simp_all add: pow2_def)
    have q: "(of_int m :: rat) / (1 / 2 ^ j) = of_int (m * 2 ^ j)" by simp
    show ?thesis
      using pos unfolding round_double_def Let_def ex mx p q round_half_even_of_int
      by simp
  qed
qed

lemma round_double_of_nat:
  "n \<le> 2 ^ 53 \<Longrightarrow> round_double (rat_of_nat n) = rat_of_nat n"
proof -
  assume "n \<le> 2 ^ 53"
  then have "int n \<le> 2 ^ 53" by (metis of_nat_le_iff of_nat_numeral of_nat_power)
  with round_double_of_int [of "int n"] show ?thesis by simp
qed

lemma max_double_large: "2 ^ 53 \<le> max_double"
  by (simp add: max_double_def)

subsection \<open>Ranks and counts\<close>



lemma getitem_beyond: "int (length xs) \<le> i \<Longrightarrow> getitem xs i = Inl IndexError"
  by (simp add: getitem_def)










subsection \<open>The product with the length\<close>


lemma times_len_empty: "times_len k 0 = Inr 0"
  by (cases k) (simp_all add: times_len_def round_double_def max_double_def)

lemma times_len_one_int: "times_len (PyInt 1) n = Inr (rat_of_nat n)"
  by (simp add: times_len_def)

lemma times_len_one_float:
  assumes "n \<le> 2 ^ 53"
  shows "times_len (PyFloat 1) n = Inr (rat_of_nat n)"
proof -
  have r: "round_double (rat_of_nat n) = rat_of_nat n"
    using assms by (rule round_double_of_nat)
  have "rat_of_nat n \<le> 2 ^ 53"
    using assms by (metis of_nat_le_iff of_nat_numeral of_nat_power)
  from this max_double_large have le: "rat_of_nat n \<le> max_double" by (rule order_trans)
  then have "\<not> max_double < rat_of_nat n" "\<not> max_double < \<bar>rat_of_nat n\<bar>" by simp_all
  then show ?thesis by (simp add: times_len_def r)
qed

lemma times_len_float_small:
  assumes "n \<le> 2 ^ 53" and "\<bar>round_double (x * rat_of_nat n)\<bar> \<le> 2 ^ 53"
  shows "times_len (PyFloat x) n = Inr (round_double (x * rat_of_nat n))"
proof -
  have r: "round_double (rat_of_nat n) = rat_of_nat n"
    using assms(1) by (rule round_double_of_nat)
  have "rat_of_nat n \<le> 2 ^ 53"
    using assms(1) by (metis of_nat_le_iff of_nat_numeral of_nat_power)
  from this max_double_large have "rat_of_nat n \<le> max_double" by (rule order_trans)
  then have a: "\<not> max_double < rat_of_nat n" by simp
  from assms(2) max_double_large
  have "\<bar>round_double (x * rat_of_nat n)\<bar> \<le> max_double" by (rule order_trans)
  then have b: "\<not> max_double < \<bar>round_double (x * rat_of_nat n)\<bar>" by simp
  from a b show ?thesis by (simp add: times_len_def r)
qed

lemma py_int_of_nat: "py_int (rat_of_nat n) = int n"
  by (simp add: py_int_def)

text \<open>
  The double product is not the exact one: the double of the literal 0.3 is below 3/10 and
  its product with 10 rounds to 3; the double of 0.58 is below 58/100 and its product with
  50 stays below 29.
\<close>

lemma double_03: "round_double (3/10) = 5404319552844595 / 18014398509481984"
  by code_simp

lemma double_058: "round_double (58/100) = 5224175567749775 / 9007199254740992"
  by code_simp

lemma double_03_times_10: "round_double (round_double (3/10) * rat_of_nat 10) = 3"
  by code_simp

lemma double_058_times_50:
  "round_double (round_double (58/100) * rat_of_nat 50) = 8162774324609023 / 281474976710656"
  by code_simp

lemma times_len_03_10: "times_len (PyFloat (round_double (3/10))) 10 = Inr 3"
proof -
  have n: "(10::nat) \<le> 2 ^ 53" by simp
  have s: "\<bar>round_double (round_double (3/10) * rat_of_nat 10)\<bar> \<le> 2 ^ 53"
    unfolding double_03_times_10 by simp
  from times_len_float_small [OF n s] show ?thesis unfolding double_03_times_10 .
qed

lemma times_len_058_50:
  "times_len (PyFloat (round_double (58/100))) 50 = Inr (8162774324609023 / 281474976710656)"
proof -
  have n: "(50::nat) \<le> 2 ^ 53" by simp
  have s: "\<bar>round_double (round_double (58/100) * rat_of_nat 50)\<bar> \<le> 2 ^ 53"
    unfolding double_058_times_50 by simp
  from times_len_float_small [OF n s] show ?thesis unfolding double_058_times_50 .
qed

lemma double_product_examples:
  "round_double (3/10) * 10 < 3
   \<and> times_len (PyFloat (round_double (3/10))) 10 = Inr 3
   \<and> \<lfloor>(58/100 :: rat) * 50\<rfloor> = 29
   \<and> map_sum id py_int (times_len (PyFloat (round_double (58/100))) 50) = Inr 28"
proof -
  have 1: "round_double (3/10) * 10 < 3" unfolding double_03 by simp
  have 3: "\<lfloor>(58/100 :: rat) * 50\<rfloor> = 29" by simp
  have 4: "map_sum id py_int (times_len (PyFloat (round_double (58/100))) 50) = Inr 28"
    unfolding times_len_058_50 by (simp add: py_int_def floor_eq_iff)
  from 1 times_len_03_10 3 4 show ?thesis by (intro conjI)
qed

subsection \<open>Threshold, example and range\<close>



text \<open>
  C2.  On \<open>y_true = [1,0,1,0,1,0,0,0,0,0]\<close>, the scores \<open>.9, .8, \<dots>, .1, .05\<close> and
  \<open>k = 0.3\<close> (all as the doubles the literals denote) the product is 3.0, the index is
  3, the threshold is the fourth largest score \<open>.6\<close>, four entries are predicted positive
  and the value returned is 0.5, not the double nearest to 2/3.
\<close>

theorem precision_at_k_example_top4:
  "times_len (PyFloat (round_double (3/10))) (length example_y_scores) = Inr 3
   \<and> getitem (rev (sort example_y_scores)) (py_int 3) = Inr (round_double (6/10))
   \<and> predict_at (round_double (6/10)) example_y_scores = [1, 1, 1, 1, 0, 0, 0, 0, 0, 0]
   \<and> precision_at_k example_y_true example_y_scores (PyFloat (round_double (3/10)))
       = Inr (1/2)
   \<and> precision_at_k example_y_true example_y_scores (PyFloat (round_double (3/10)))
       \<noteq> Inr (round_double (2/3))
   \<and> precision_at_k example_y_true example_y_scores (PyFloat (round_double (3/10)))
       \<noteq> Inr (2/3)"
proof -
  have l: "length example_y_scores = 10" by (simp add: example_y_scores_def)
  have 1: "times_len (PyFloat (round_double (3/10))) (length example_y_scores) = Inr 3"
    unfolding l by (rule times_len_03_10)
  have 2: "getitem (rev (sort example_y_scores)) (py_int 3) = Inr (round_double (6/10))"
    by code_simp
  have 3: "predict_at (round_double (6/10)) example_y_scores = [1, 1, 1, 1, 0, 0, 0, 0, 0, 0]"
    by code_simp
  have ps: "precision_score example_y_true [1, 1, 1, 1, 0, 0, 0, 0, 0, 0] = Inr (1/2)"
    by code_simp
  have 4: "precision_at_k example_y_true example_y_scores (PyFloat (round_double (3/10)))
       = Inr (1/2)"
    by (simp only: precision_at_k_def 1 sum.case 2 3 ps)
  have "round_double (2/3) \<noteq> 1/2" by code_simp
  then have 5: "precision_at_k example_y_true example_y_scores (PyFloat (round_double (3/10)))
       \<noteq> Inr (round_double (2/3))"
    unfolding 4 by simp
  have 6: "precision_at_k example_y_true example_y_scores (PyFloat (round_double (3/10)))
       \<noteq> Inr (2/3)"
    unfolding 4 by simp
  from 1 2 3 4 5 6 show ?thesis by (intro conjI)
qed

text \<open>
  C10.  Whenever \<open>int(k * len(y_scores)) \<ge> len(y_scores)\<close> the indexing of the sorted
  scores is out of range and the call fails with IndexError instead of returning a value;
  when the product itself cannot be turned into an int the call fails with that error.
  The index is out of range for the int \<open>k = 1\<close> on every list, for the float \<open>k = 1.0\<close>
  on every list of at most \<open>2^53\<close> scores (the lengths a double holds exactly), and for
  every \<open>k\<close> on the empty list.
\<close>

theorem precision_at_k_index_out_of_range:
  "(times_len k (length y_scores) = Inr p \<and> int (length y_scores) \<le> py_int p
      \<longrightarrow> precision_at_k y_true y_scores k = Inl IndexError)
   \<and> (\<forall>e. times_len k (length y_scores) = Inl e
      \<longrightarrow> precision_at_k y_true y_scores k = Inl e)
   \<and> precision_at_k y_true y_scores (PyInt 1) = Inl IndexError
   \<and> (length y_scores \<le> 2 ^ 53
      \<longrightarrow> precision_at_k y_true y_scores (PyFloat 1) = Inl IndexError)
   \<and> precision_at_k y_true [] k = Inl IndexError"
proof -
  have 1: "precision_at_k y_true y_scores k = Inl IndexError"
    if "times_len k (length y_scores) = Inr p \<and> int (length y_scores) \<le> py_int p"
    using that by (simp add: precision_at_k_def getitem_beyond)
  have 2: "\<forall>e. times_len k (length y_scores) = Inl e
      \<longrightarrow> precision_at_k y_true y_scores k = Inl e"
    by (simp add: precision_at_k_def)
  have 3: "precision_at_k y_true y_scores (PyInt 1) = Inl IndexError"
    by (simp add: precision_at_k_def times_len_one_int py_int_of_nat getitem_beyond)
  have 4: "precision_at_k y_true y_scores (PyFloat 1) = Inl IndexError"
    if "length y_scores \<le> 2 ^ 53"
    using times_len_one_float [OF that]
    by (simp add: precision_at_k_def py_int_of_nat getitem_beyond)
  have 5: "precision_at_k y_true [] k = Inl IndexError"
    by (simp add: precision_at_k_def times_len_empty py_int_def getitem_def)
  from 1 2 3 4 5 show ?thesis by blast
qed

theorem precision_at_k_index_out_of_range_witness:
  "times_len (PyFloat 1) (length [3/4, 1/2 :: rat]) = Inr 2
   \<and> int (length [3/4, 1/2 :: rat]) \<le> py_int 2
   \<and> length [3/4, 1/2 :: rat] \<le> 2 ^ 53
   \<and> precision_at_k [1, 0] [3/4, 1/2] (PyFloat 1) = Inl IndexError"
proof -
  have n: "length [3/4, 1/2 :: rat] \<le> 2 ^ 53" by simp
  from times_len_one_float [OF n]
  have t: "times_len (PyFloat 1) (length [3/4, 1/2 :: rat]) = Inr 2" by simp
  have i: "int (length [3/4, 1/2 :: rat]) \<le> py_int 2" by (simp add: py_int_def)
  from precision_at_k_index_out_of_range [of "PyFloat 1" "[3/4, 1/2]" 2 "[1, 0]"] t i
  have "precision_at_k [1, 0] [3/4, 1/2] (PyFloat 1) = Inl IndexError" by blast
  with t i n show ?thesis by (intro conjI)
qed

section \<open>Properties of the label tables\<close>

subsection \<open>\<open>DISTINCT ON\<close> after \<open>ORDER BY\<close>\<close>

lemma map_distinct_on: "map f (distinct_on f xs) = remdups_adj (map f xs)"
  by (induction f xs rule: distinct_on.induct) simp_all


lemma image_distinct_on: "f ` set (distinct_on f xs) = f ` set xs"
proof -
  have "set (map f (distinct_on f xs)) = set (map f xs)"
    by (simp only: map_distinct_on remdups_adj_set)
  then show ?thesis by simp
qed

lemma distinct_remdups_adj_sorted: "sorted (ks::'k::linorder list) \<Longrightarrow> distinct (remdups_adj ks)"
proof (induction ks rule: remdups_adj.induct)
  case (3 x y xs)
  show ?case
  proof (cases "x = y")
    case True
    with 3 show ?thesis by simp
  next
    case False
    from 3 have "\<forall>z \<in> set (y # xs). x < z" using False by fastforce
    then have "x \<notin> set (remdups_adj (y # xs))" by (auto simp del: remdups_adj.simps)
    with 3 False show ?thesis by simp
  qed
qed simp_all

lemma distinct_on_sorted_distinct:
  "sorted (map f xs) \<Longrightarrow> distinct (map f (distinct_on f xs))"
  by (simp only: map_distinct_on distinct_remdups_adj_sorted)

lemma sorted_fst_key:
  "sorted (map (\<lambda>r. (f r, g r)) xs) \<Longrightarrow> sorted (map f xs)"
proof (induction xs)
  case Nil
  then show ?case by simp
next
  case (Cons x xs)
  have "f x \<le> f z" if "z \<in> set xs" for z
  proof -
    from Cons.prems that have "(f x, g x) \<le> (f z, g z)" by (simp del: less_eq_prod_simp)
    then show ?thesis by (auto simp: less_eq_prod_def)
  qed
  moreover have "sorted (map f xs)" using Cons by simp
  ultimately show ?case by simp
qed



subsection \<open>The returned cohort and the join\<close>

lemma select_row_sel:
  "recptno (select_row s) = recptno s" "start_date (select_row s) = start_date s"
  "end_date (select_row s) = end_date s"
  by (simp_all add: select_row_def)

lemma cohort_returned_distinct:
  "distinct (map recptno (cohort_returned spells c P w))"
proof -
  let ?xs = "sort_key (\<lambda>r. (recptno r, start_date r)) (map select_row
      (filter (\<lambda>s. in_forward_window P w s \<and> recptno s \<in> set (map recptno c)) spells))"
  have "sorted (map (\<lambda>r. (recptno r, start_date r)) ?xs)" by (rule sorted_sort_key)
  then have "sorted (map recptno ?xs)" by (rule sorted_fst_key)
  then show ?thesis unfolding cohort_returned_def by (rule distinct_on_sorted_distinct)
qed


lemma cohort_returned_recptno:
  "recptno ` set (cohort_returned spells c P w)
     = recptno ` {s \<in> set spells. in_forward_window P w s \<and> recptno s \<in> recptno ` set c}"
proof -
  have "recptno ` set (cohort_returned spells c P w)
      = recptno ` set (sort_key (\<lambda>r. (recptno r, start_date r)) (map select_row
           (filter (\<lambda>s. in_forward_window P w s \<and> recptno s \<in> set (map recptno c)) spells)))"
    unfolding cohort_returned_def by (rule image_distinct_on)
  also have "\<dots> = (recptno \<circ> select_row)
       ` {s \<in> set spells. in_forward_window P w s \<and> recptno s \<in> recptno ` set c}"
    by (simp add: image_comp)
  also have "recptno \<circ> select_row = (recptno :: spell \<Rightarrow> int)"
    by (rule ext) (simp add: select_row_sel)
  finally show ?thesis .
qed


lemma filter_unique_key:
  "distinct (map g bs) \<Longrightarrow>
   filter (\<lambda>b. v = g b) bs = (case find (\<lambda>b. v = g b) bs of None \<Rightarrow> [] | Some b \<Rightarrow> [b])"
proof (induction bs)
  case Nil
  then show ?case by simp
next
  case (Cons b bs)
  show ?case
  proof (cases "v = g b")
    case True
    with Cons.prems have "\<forall>x \<in> set bs. v \<noteq> g x" by auto
    then have "filter (\<lambda>b. v = g b) bs = []" by (simp add: filter_empty_conv)
    with True show ?thesis by simp
  next
    case False
    with Cons show ?thesis by simp
  qed
qed

lemma left_join_unique:
  assumes "distinct (map g bs)"
  shows "left_join (\<lambda>a b. f a = g b) as bs = map (\<lambda>a. (a, find (\<lambda>b. f a = g b) bs)) as"
proof -
  have "(case filter (\<lambda>b. f a = g b) bs of [] \<Rightarrow> [(a, None)]
          | m # ms \<Rightarrow> map (\<lambda>b. (a, Some b)) (m # ms))
        = [(a, find (\<lambda>b. f a = g b) bs)]" for a
    by (simp add: filter_unique_key [OF assms] split: option.split)
  then show ?thesis by (simp add: left_join_def)
qed

lemma joined_eq:
  "joined spells P off back ahead
     = map (\<lambda>a. (a, find (\<lambda>b. recptno a = recptno b)
                       (cohort_returned spells (cohort spells P off back) P ahead)))
         (cohort spells P off back)"
  unfolding joined_def Let_def
  by (rule left_join_unique) (rule cohort_returned_distinct)

lemma find_returned_None:
  assumes "a \<in> set c"
  shows "(find (\<lambda>b. recptno a = recptno b) (cohort_returned spells c P w) = None)
     = (\<not> (\<exists>s \<in> set spells. in_forward_window P w s \<and> recptno s = recptno a))"
proof -
  have "(find (\<lambda>b. recptno a = recptno b) (cohort_returned spells c P w) = None)
      = (recptno a \<notin> recptno ` set (cohort_returned spells c P w))"
    by (auto simp: find_None_iff)
  also have "\<dots> = (\<not> (\<exists>s \<in> set spells. in_forward_window P w s \<and> recptno s = recptno a))"
  proof -
    have "recptno a \<in> recptno ` set c" using assms by (rule imageI)
    then show ?thesis unfolding cohort_returned_recptno
      by (auto simp: image_iff)
  qed
  finally show ?thesis .
qed

lemma labels_eq:
  "labels spells P off back ahead
     = map (\<lambda>a. \<lparr>recptno = recptno a, start_date = start_date a, end_date = end_date a,
                 label = (if \<exists>s \<in> set spells. in_forward_window P ahead s
                               \<and> recptno s = recptno a then 1 else 0)\<rparr>)
         (cohort spells P off back)"
proof -
  have "select_label (a, find (\<lambda>b. recptno a = recptno b)
            (cohort_returned spells (cohort spells P off back) P ahead))
      = \<lparr>recptno = recptno a, start_date = start_date a, end_date = end_date a,
         label = (if \<exists>s \<in> set spells. in_forward_window P ahead s
                       \<and> recptno s = recptno a then 1 else 0)\<rparr>"
    if "a \<in> set (cohort spells P off back)" for a
  proof (cases "find (\<lambda>b. recptno a = recptno b)
            (cohort_returned spells (cohort spells P off back) P ahead)")
    case None
    with find_returned_None [OF that, of spells P ahead] show ?thesis
      by (simp add: select_label_def)
  next
    case (Some b)
    with find_returned_None [OF that, of spells P ahead] show ?thesis
      by (simp add: select_label_def)
  qed
  then show ?thesis
    unfolding labels_def joined_eq by (simp add: comp_def)
qed

subsection \<open>The label table and the scenario\<close>

lemma generate_labels_builds:
  assumes "to_date preddate = Some P"
    and "tables db (labels_table schema preddate) = None \<or> overwrite"
  shows "generate_labels db preddate off back ahead schema overwrite
     = Inr (db\<lparr>tables := (tables db)(labels_table schema preddate \<mapsto>
                labels (ind_spells db) P off back ahead)\<rparr>,
            labels (ind_spells db) P off back ahead)"
proof -
  from assms(2) have "rowcount db (labels_table schema preddate) = 0 \<or> overwrite"
    by (auto simp: rowcount_def)
  then show ?thesis
    using assms(1) by (simp add: generate_labels_def execute_sql_def read_sql_def)
qed


lemma select_row_labels:
  "map select_row (labels spells P off back ahead) = cohort spells P off back"
proof -
  have "select_row \<lparr>recptno = recptno a, start_date = start_date a, end_date = end_date a,
      label = l\<rparr> = a" for a :: spell_row and l :: int
    by (cases a) (simp add: select_row_def)
  then show ?thesis unfolding labels_eq by (simp add: comp_def)
qed

lemma mset_cohort:
  "mset (cohort spells P off back)
     = image_mset select_row (filter_mset (in_cohort_window P off back) (mset spells))"
  by (simp add: cohort_def)

lemma mset_labels_perm:
  assumes "mset spells' = mset spells"
  shows "mset (labels spells' P off back ahead) = mset (labels spells P off back ahead)"
proof -
  from assms have "set spells' = set spells" by (rule mset_eq_setD)
  moreover have "mset (cohort spells' P off back) = mset (cohort spells P off back)"
    using assms by (simp add: mset_cohort)
  ultimately show ?thesis
    unfolding labels_eq by simp
qed

lemma to_date_scenario: "to_date ''2008-01-01'' = Some (2008, 1, 1)"
  by (simp add: to_date_def digit_def days_in_month_def)

lemma cohort_scenario:
  "cohort scenario_spells (2008, 1, 1) 12 3 =
     [\<lparr>recptno = 1, start_date = (2006, 1, 1), end_date = (2006, 11, 15)\<rparr>,
      \<lparr>recptno = 2, start_date = (2006, 5, 1), end_date = (2006, 12, 1)\<rparr>,
      \<lparr>recptno = 3, start_date = (2006, 3, 1), end_date = (2006, 10, 20)\<rparr>]"
  by code_simp



lemma labels_scenario:
  "labels scenario_spells (2008, 1, 1) 12 3 2 =
     [\<lparr>recptno = 1, start_date = (2006, 1, 1), end_date = (2006, 11, 15), label = 1\<rparr>,
      \<lparr>recptno = 2, start_date = (2006, 5, 1), end_date = (2006, 12, 1), label = 0\<rparr>,
      \<lparr>recptno = 3, start_date = (2006, 3, 1), end_date = (2006, 10, 20), label = 1\<rparr>]"
  by code_simp



subsection \<open>Cohort, labels, returned cohort\<close>

text \<open>
  C8.  A spell of benefit type tanf46 is in the cohort exactly when its end date lies
  between the prediction date less \<open>months_off\<close> and \<open>months_back\<close> months (inclusive) and
  the prediction date less \<open>months_off\<close> months (exclusive); the cohort has one row for
  each such spell and no other row.
\<close>

theorem cohort_window:
  "(\<forall>s \<in> set spells. benefit_type s = ''tanf46'' \<longrightarrow>
      (select_row s \<in> set (cohort spells P months_off months_back))
        = (sub_months (sub_months P months_off) months_back \<le> end_date s
           \<and> end_date s < sub_months P months_off))
   \<and> (\<forall>r. length (filter (\<lambda>a. a = r) (cohort spells P months_off months_back))
        = length (filter (\<lambda>s. select_row s = r \<and> benefit_type s = ''tanf46''
            \<and> sub_months (sub_months P months_off) months_back \<le> end_date s
            \<and> end_date s < sub_months P months_off) spells))"
proof (intro conjI ballI impI allI)
  fix s assume s: "s \<in> set spells" and b: "benefit_type s = ''tanf46''"
  show "(select_row s \<in> set (cohort spells P months_off months_back))
        = (sub_months (sub_months P months_off) months_back \<le> end_date s
           \<and> end_date s < sub_months P months_off)"
  proof
    assume "select_row s \<in> set (cohort spells P months_off months_back)"
    then obtain s' where win: "in_cohort_window P months_off months_back s'"
      and "select_row s' = select_row s"
      by (auto simp: cohort_def)
    then have eq: "end_date s = end_date s'"
      by (metis select_row_sel(3))
    from win show "sub_months (sub_months P months_off) months_back \<le> end_date s
           \<and> end_date s < sub_months P months_off"
      unfolding eq by (simp add: in_cohort_window_def)
  next
    assume "sub_months (sub_months P months_off) months_back \<le> end_date s
           \<and> end_date s < sub_months P months_off"
    with b have "in_cohort_window P months_off months_back s"
      by (simp add: in_cohort_window_def)
    with s show "select_row s \<in> set (cohort spells P months_off months_back)"
      by (simp add: cohort_def)
  qed
next
  fix r
  have "length (filter (\<lambda>a. a = r) (cohort spells P months_off months_back))
      = length (filter (\<lambda>s. select_row s = r)
          (filter (in_cohort_window P months_off months_back) spells))"
    by (simp add: cohort_def filter_map comp_def)
  also have "\<dots> = length (filter (\<lambda>s. select_row s = r \<and> benefit_type s = ''tanf46''
            \<and> sub_months (sub_months P months_off) months_back \<le> end_date s
            \<and> end_date s < sub_months P months_off) spells)"
    by (simp add: in_cohort_window_def conj_commute conj_left_commute cong: conj_cong)
  finally show "length (filter (\<lambda>a. a = r) (cohort spells P months_off months_back))
        = length (filter (\<lambda>s. select_row s = r \<and> benefit_type s = ''tanf46''
            \<and> sub_months (sub_months P months_off) months_back \<le> end_date s
            \<and> end_date s < sub_months P months_off) spells)" .
qed

theorem cohort_window_witness:
  "\<lparr>recptno = 3, start_date = (2006, 3, 1), end_date = (2006, 10, 20),
      benefit_type = ''tanf46''\<rparr> \<in> set scenario_spells
   \<and> sub_months (sub_months (2008, 1, 1) 12) 3 = (2006, 10, 1)
   \<and> sub_months (2008, 1, 1) 12 = (2007, 1, 1)
   \<and> \<lparr>recptno = 3, start_date = (2006, 3, 1), end_date = (2006, 10, 20)\<rparr>
        \<in> set (cohort scenario_spells (2008, 1, 1) 12 3)
   \<and> \<lparr>recptno = 2, start_date = (2008, 1, 6), end_date = (2008, 1, 20)\<rparr>
        \<notin> set (cohort scenario_spells (2008, 1, 1) 12 3)"
proof -
  let ?s = "\<lparr>recptno = 3, start_date = (2006, 3, 1), end_date = (2006, 10, 20),
      benefit_type = ''tanf46''\<rparr>"
  have mem: "?s \<in> set scenario_spells" by (simp add: scenario_spells_def)
  have b: "benefit_type ?s = ''tanf46''" by simp
  have lo: "sub_months (sub_months (2008, 1, 1) 12) 3 = (2006, 10, 1)"
    by code_simp
  have hi: "sub_months (2008, 1, 1) 12 = (2007, 1, 1)"
    by code_simp
  have win: "sub_months (sub_months (2008, 1, 1) 12) 3 \<le> end_date ?s
      \<and> end_date ?s < sub_months (2008, 1, 1) 12"
    by code_simp
  from cohort_window [of scenario_spells "(2008, 1, 1)" 12 3]
  have "(select_row ?s \<in> set (cohort scenario_spells (2008, 1, 1) 12 3))
      = (sub_months (sub_months (2008, 1, 1) 12) 3 \<le> end_date ?s
         \<and> end_date ?s < sub_months (2008, 1, 1) 12)"
    using mem b by blast
  with win have "select_row ?s \<in> set (cohort scenario_spells (2008, 1, 1) 12 3)" by simp
  then have 1: "\<lparr>recptno = 3, start_date = (2006, 3, 1), end_date = (2006, 10, 20)\<rparr>
        \<in> set (cohort scenario_spells (2008, 1, 1) 12 3)"
    by (simp add: select_row_def)
  have 2: "\<lparr>recptno = 2, start_date = (2008, 1, 6), end_date = (2008, 1, 20)\<rparr>
        \<notin> set (cohort scenario_spells (2008, 1, 1) 12 3)"
    unfolding cohort_scenario by simp
  from mem lo hi 1 2 show ?thesis by blast
qed

text \<open>
  C3.  When \<open>generate_labels\<close> builds the label table, the table has the rows of the
  cohort in its first three columns, and the label of a row is 1 exactly when some spell
  of the same entity and of benefit type tanf46 starts on or after the prediction date and
  before the prediction date plus \<open>months_ahead\<close> months; otherwise it is 0.
\<close>

theorem generate_labels_label_iff:
  "to_date preddate = Some P \<Longrightarrow>
   tables db (labels_table schema preddate) = None \<or> overwrite \<Longrightarrow>
   \<exists>db' rows.
     generate_labels db preddate months_off months_back months_ahead schema overwrite
       = Inr (db', rows)
     \<and> tables db' (labels_table schema preddate) = Some rows
     \<and> map select_row rows = cohort (ind_spells db) P months_off months_back
     \<and> (\<forall>r \<in> set rows.
          (label r = 1) = (\<exists>s \<in> set (ind_spells db). recptno s = recptno r
               \<and> benefit_type s = ''tanf46'' \<and> P \<le> start_date s
               \<and> start_date s < add_months P months_ahead)
          \<and> (label r \<noteq> 1 \<longrightarrow> label r = 0))"
proof -
  assume d: "to_date preddate = Some P"
    and t: "tables db (labels_table schema preddate) = None \<or> overwrite"
  let ?rows = "labels (ind_spells db) P months_off months_back months_ahead"
  let ?db' = "db\<lparr>tables := (tables db)(labels_table schema preddate \<mapsto> ?rows)\<rparr>"
  have 1: "generate_labels db preddate months_off months_back months_ahead schema overwrite
       = Inr (?db', ?rows)"
    using d t by (rule generate_labels_builds)
  have 2: "tables ?db' (labels_table schema preddate) = Some ?rows" by simp
  have 3: "map select_row ?rows = cohort (ind_spells db) P months_off months_back"
    by (rule select_row_labels)
  have 4: "\<forall>r \<in> set ?rows.
          (label r = 1) = (\<exists>s \<in> set (ind_spells db). recptno s = recptno r
               \<and> benefit_type s = ''tanf46'' \<and> P \<le> start_date s
               \<and> start_date s < add_months P months_ahead)
          \<and> (label r \<noteq> 1 \<longrightarrow> label r = 0)"
    unfolding labels_eq by (auto simp: in_forward_window_def)
  from 1 2 3 4 show ?thesis by blast
qed

theorem generate_labels_label_iff_witness:
  "to_date ''2008-01-01'' = Some (2008, 1, 1)
   \<and> (tables scenario_db (labels_table ''ada_tanf'' ''2008-01-01'') = None \<or> False)
   \<and> (\<exists>db' rows.
        generate_labels scenario_db ''2008-01-01'' 12 3 2 ''ada_tanf'' False = Inr (db', rows)
        \<and> map recptno rows = [1, 2, 3] \<and> map label rows = [1, 0, 1]
        \<and> (\<forall>r \<in> set rows.
          (label r = 1) = (\<exists>s \<in> set (ind_spells scenario_db). recptno s = recptno r
               \<and> benefit_type s = ''tanf46'' \<and> (2008, 1, 1) \<le> start_date s
               \<and> start_date s < add_months (2008, 1, 1) 2)))"
proof -
  have t: "tables scenario_db (labels_table ''ada_tanf'' ''2008-01-01'') = None \<or> False"
    by (simp add: scenario_db_def)
  from generate_labels_label_iff [OF to_date_scenario t, of 12 3 2]
  obtain db' rows where
    g: "generate_labels scenario_db ''2008-01-01'' 12 3 2 ''ada_tanf'' False = Inr (db', rows)"
    and l: "\<forall>r \<in> set rows.
          (label r = 1) = (\<exists>s \<in> set (ind_spells scenario_db). recptno s = recptno r
               \<and> benefit_type s = ''tanf46'' \<and> (2008, 1, 1) \<le> start_date s
               \<and> start_date s < add_months (2008, 1, 1) 2)
          \<and> (label r \<noteq> 1 \<longrightarrow> label r = 0)"
    by blast
  from generate_labels_builds [OF to_date_scenario t, of 12 3 2] g
  have "rows = labels scenario_spells (2008, 1, 1) 12 3 2"
    by (simp add: scenario_db_def)
  then have m: "map recptno rows = [1, 2, 3]" "map label rows = [1, 0, 1]"
    by (simp_all add: labels_scenario)
  from l have l': "\<forall>r \<in> set rows.
          (label r = 1) = (\<exists>s \<in> set (ind_spells scenario_db). recptno s = recptno r
               \<and> benefit_type s = ''tanf46'' \<and> (2008, 1, 1) \<le> start_date s
               \<and> start_date s < add_months (2008, 1, 1) 2)"
    by simp
  show ?thesis
  proof (intro conjI exI)
    show "generate_labels scenario_db ''2008-01-01'' 12 3 2 ''ada_tanf'' False
        = Inr (db', rows)" by (fact g)
  qed (fact to_date_scenario t m l')+
qed





text \<open>
  C9.  For a prediction date the engine accepts, a call with \<open>overwrite\<close> true yields a
  label table; the same call repeated on the database it leaves yields the same table and
  leaves the database as it is; the spells are not touched.  On a database holding the
  same spells in another physical order, the call yields a table with the same rows and
  values.
\<close>

theorem generate_labels_deterministic:
  "to_date preddate = Some P \<Longrightarrow> mset (ind_spells db') = mset (ind_spells db) \<Longrightarrow>
   \<exists>db1 t db1' t'.
     generate_labels db preddate months_off months_back months_ahead schema True = Inr (db1, t)
     \<and> ind_spells db1 = ind_spells db
     \<and> generate_labels db1 preddate months_off months_back months_ahead schema True
          = Inr (db1, t)
     \<and> generate_labels db' preddate months_off months_back months_ahead schema True
          = Inr (db1', t')
     \<and> mset t' = mset t"
proof -
  assume d: "to_date preddate = Some P" and p: "mset (ind_spells db') = mset (ind_spells db)"
  let ?n = "labels_table schema preddate"
  let ?t = "labels (ind_spells db) P months_off months_back months_ahead"
  let ?t' = "labels (ind_spells db') P months_off months_back months_ahead"
  let ?db1 = "db\<lparr>tables := (tables db)(?n \<mapsto> ?t)\<rparr>"
  let ?db1' = "db'\<lparr>tables := (tables db')(?n \<mapsto> ?t')\<rparr>"
  have o: "\<And>x. x = None \<or> True" by simp
  have 1: "generate_labels db preddate months_off months_back months_ahead schema True
      = Inr (?db1, ?t)"
    using d o by (rule generate_labels_builds)
  have 2: "ind_spells ?db1 = ind_spells db" by simp
  have "generate_labels ?db1 preddate months_off months_back months_ahead schema True
      = Inr (?db1\<lparr>tables := (tables ?db1)(?n \<mapsto>
                labels (ind_spells ?db1) P months_off months_back months_ahead)\<rparr>,
             labels (ind_spells ?db1) P months_off months_back months_ahead)"
    using d o by (rule generate_labels_builds)
  then have 3: "generate_labels ?db1 preddate months_off months_back months_ahead schema True
      = Inr (?db1, ?t)"
    by simp
  have 4: "generate_labels db' preddate months_off months_back months_ahead schema True
      = Inr (?db1', ?t')"
    using d o by (rule generate_labels_builds)
  have 5: "mset ?t' = mset ?t" using p by (rule mset_labels_perm)
  show ?thesis
  proof (intro exI conjI)
    show "generate_labels db preddate months_off months_back months_ahead schema True
      = Inr (?db1, ?t)" by (fact 1)
    show "generate_labels db' preddate months_off months_back months_ahead schema True
      = Inr (?db1', ?t')" by (fact 4)
  qed (fact 2 3 5)+
qed

theorem generate_labels_deterministic_witness:
  "to_date ''2008-01-01'' = Some (2008, 1, 1)
   \<and> mset (ind_spells (scenario_db\<lparr>ind_spells := rev scenario_spells\<rparr>))
       = mset (ind_spells scenario_db)
   \<and> (\<exists>db1 t db1' t'.
       generate_labels scenario_db ''2008-01-01'' 12 3 2 ''ada_tanf'' True = Inr (db1, t)
       \<and> generate_labels db1 ''2008-01-01'' 12 3 2 ''ada_tanf'' True = Inr (db1, t)
       \<and> generate_labels (scenario_db\<lparr>ind_spells := rev scenario_spells\<rparr>)
            ''2008-01-01'' 12 3 2 ''ada_tanf'' True = Inr (db1', t')
       \<and> mset t' = mset t)"
proof -
  have p: "mset (ind_spells (scenario_db\<lparr>ind_spells := rev scenario_spells\<rparr>))
       = mset (ind_spells scenario_db)"
    by (simp add: scenario_db_def)
  from generate_labels_deterministic [OF to_date_scenario p, of 12 3 2 "''ada_tanf''"]
  have "\<exists>db1 t db1' t'.
       generate_labels scenario_db ''2008-01-01'' 12 3 2 ''ada_tanf'' True = Inr (db1, t)
       \<and> generate_labels db1 ''2008-01-01'' 12 3 2 ''ada_tanf'' True = Inr (db1, t)
       \<and> generate_labels (scenario_db\<lparr>ind_spells := rev scenario_spells\<rparr>)
            ''2008-01-01'' 12 3 2 ''ada_tanf'' True = Inr (db1', t')
       \<and> mset t' = mset t"
    by blast
  with to_date_scenario p show ?thesis by (intro conjI)
qed




section \<open>Properties of the matrix assembly\<close>

lemma left_join_Cons:
  "left_join on (a # as) bs =
     (case filter (on a) bs of [] \<Rightarrow> [(a, None)] | m # ms \<Rightarrow> map (\<lambda>b. (a, Some b)) (m # ms))
     @ left_join on as bs"
  by (simp add: left_join_def)

lemma left_join_Nil: "left_join on [] bs = []"
  by (simp add: left_join_def)

lemma left_join_keeps:
  "fst ` set (left_join on as bs) = set as \<and> length as \<le> length (left_join on as bs)"
proof (induction as)
  case Nil
  show ?case by (simp add: left_join_Nil)
next
  case (Cons a as)
  show ?case
  proof (cases "filter (on a) bs")
    case Nil
    with Cons.IH show ?thesis by (simp add: left_join_Cons image_Un)
  next
    case filt: (Cons m ms)
    with Cons.IH show ?thesis by (auto simp: left_join_Cons image_Un image_image)
  qed
qed

lemma left_join_at_most_one:
  "\<forall>a \<in> set as. length (filter (on a) bs) \<le> 1 \<Longrightarrow> map fst (left_join on as bs) = as"
proof (induction as)
  case Nil
  show ?case by (simp add: left_join_Nil)
next
  case (Cons a as)
  then have "length (filter (on a) bs) \<le> 1" by simp
  then have "map fst (case filter (on a) bs of [] \<Rightarrow> [(a, None)]
      | m # ms \<Rightarrow> map (\<lambda>b. (a, Some b)) (m # ms)) = [a]"
    by (cases "filter (on a) bs") simp_all
  with Cons show ?case by (simp add: left_join_Cons)
qed

lemma set_map_filter: "set (List.map_filter f xs) = {y. \<exists>x \<in> set xs. f x = Some y}"
  by (induction xs) (auto simp: map_filter_simps split: option.splits)

lemma sql_eq_unique:
  "distinct (List.map_filter g fs) \<Longrightarrow> length (filter (\<lambda>f. sql_eq (g f) v) fs) \<le> 1"
proof (induction fs)
  case Nil
  show ?case by simp
next
  case (Cons f fs)
  show ?case
  proof (cases "sql_eq (g f) v")
    case False
    with Cons show ?thesis by (simp add: map_filter_simps split: option.splits)
  next
    case True
    then obtain i where i: "g f = Some i" "v = Some i"
      by (auto simp: sql_eq_def split: option.splits)
    with Cons.prems have "i \<notin> set (List.map_filter g fs)"
      by (simp add: map_filter_simps)
    then have "\<forall>x \<in> set fs. \<not> sql_eq (g x) v"
      using i by (auto simp: set_map_filter sql_eq_def split: option.splits)
    then have "filter (\<lambda>f. sql_eq (g f) v) fs = []" by (simp add: filter_empty_conv)
    with True show ?thesis by simp
  qed
qed

lemma inmate_doc_number_select_matrix:
  "inmate_doc_number \<circ> select_matrix = l_inmate_doc_number \<circ> fst"
  by (rule ext) (simp add: select_matrix_def split: prod.splits)

lemma cleaning_partition:
  "length (clean df) + nrows_isnan df + nrows_out_of_range df = length df"
proof -
  have "length (filter keep (drop_isnan df)) + length (filter (\<lambda>r. \<not> keep r) (drop_isnan df))
      = length (drop_isnan df)"
    by (rule sum_length_filter_compl)
  moreover have "length (filter isnan_rows df) + length (drop_isnan df) = length df"
    unfolding drop_isnan_def by (rule sum_length_filter_compl)
  ultimately show ?thesis
    by (simp add: clean_def nrows_isnan_def nrows_out_of_range_def)
qed

text \<open>
  C7.  The left join keeps every row of the label table: every labelled entity is in the
  joined matrix, which has at least as many rows as the label table.  The rows kept by the
  cleaning, the rows dropped for a missing value and the rows dropped for an
  \<open>age_first_admit\<close> outside 14 to 99 (both included) add up to the rows of the joined
  matrix; the rows kept have no missing value and an \<open>age_first_admit\<close> from 14 to 99.
  When no entity id occurs in two rows of the feature table, the joined matrix has one row
  per row of the label table, in the same order, and the three counts add up to the number
  of rows of the label table.
\<close>

theorem train_matrix_row_counts:
  "set (map l_inmate_doc_number ls) = set (map inmate_doc_number (train_matrix ls fs))
   \<and> length ls \<le> length (train_matrix ls fs)
   \<and> length (clean (train_matrix ls fs)) + nrows_isnan (train_matrix ls fs)
        + nrows_out_of_range (train_matrix ls fs) = length (train_matrix ls fs)
   \<and> (\<forall>r \<in> set (clean (train_matrix ls fs)).
        \<not> isnan_rows r \<and> (\<exists>a. age_first_admit r = Some a \<and> 14 \<le> a \<and> a \<le> 99))
   \<and> (distinct (List.map_filter f_inmate_doc_number fs) \<longrightarrow>
        map inmate_doc_number (train_matrix ls fs) = map l_inmate_doc_number ls
        \<and> length (clean (train_matrix ls fs)) + nrows_isnan (train_matrix ls fs)
             + nrows_out_of_range (train_matrix ls fs) = length ls)"
proof -
  let ?on = "\<lambda>l f. sql_eq (f_inmate_doc_number f) (l_inmate_doc_number l)"
  let ?j = "left_join ?on ls fs"
  have ids: "map inmate_doc_number (train_matrix ls fs) = map l_inmate_doc_number (map fst ?j)"
    by (simp add: train_matrix_def inmate_doc_number_select_matrix)
  have "set (map l_inmate_doc_number (map fst ?j)) = l_inmate_doc_number ` fst ` set ?j"
    by (simp add: image_image)
  also have "\<dots> = l_inmate_doc_number ` set ls"
    using left_join_keeps [of ?on ls fs] by simp
  finally have 1: "set (map l_inmate_doc_number ls)
      = set (map inmate_doc_number (train_matrix ls fs))"
    unfolding ids by simp
  have 2: "length ls \<le> length (train_matrix ls fs)"
    using left_join_keeps [of ?on ls fs] by (simp add: train_matrix_def)
  have 3: "length (clean (train_matrix ls fs)) + nrows_isnan (train_matrix ls fs)
        + nrows_out_of_range (train_matrix ls fs) = length (train_matrix ls fs)"
    by (rule cleaning_partition)
  have 4: "\<forall>r \<in> set (clean (train_matrix ls fs)).
        \<not> isnan_rows r \<and> (\<exists>a. age_first_admit r = Some a \<and> 14 \<le> a \<and> a \<le> 99)"
    by (auto simp: clean_def drop_isnan_def keep_def split: option.splits)
  have 5: "map inmate_doc_number (train_matrix ls fs) = map l_inmate_doc_number ls
        \<and> length (clean (train_matrix ls fs)) + nrows_isnan (train_matrix ls fs)
             + nrows_out_of_range (train_matrix ls fs) = length ls"
    if u: "distinct (List.map_filter f_inmate_doc_number fs)"
  proof -
    have "\<forall>l \<in> set ls. length (filter (?on l) fs) \<le> 1"
      using sql_eq_unique [OF u] by blast
    then have f: "map fst ?j = ls" by (rule left_join_at_most_one)
    then have "length ?j = length ls" by (metis length_map)
    then have "length (train_matrix ls fs) = length ls" by (simp add: train_matrix_def)
    with 3 ids f show ?thesis by simp
  qed
  from 1 2 3 4 5 show ?thesis by blast
qed

theorem train_matrix_row_counts_witness:
  "distinct (List.map_filter f_inmate_doc_number three_features)
   \<and> map inmate_doc_number (train_matrix three_labels three_features)
       = [Some ''0000004'', Some ''0000006'', Some ''0000008'']
   \<and> map inmate_doc_number (clean (train_matrix three_labels three_features))
       = [Some ''0000008'']
   \<and> nrows_isnan (train_matrix three_labels three_features) = 1
   \<and> nrows_out_of_range (train_matrix three_labels three_features) = 1
   \<and> length (clean (train_matrix three_labels three_features))
        + nrows_isnan (train_matrix three_labels three_features)
        + nrows_out_of_range (train_matrix three_labels three_features) = length three_labels"
proof -
  have u: "distinct (List.map_filter f_inmate_doc_number three_features)" by code_simp
  have c: "map inmate_doc_number (clean (train_matrix three_labels three_features))
       = [Some ''0000008'']" by code_simp
  have n: "nrows_isnan (train_matrix three_labels three_features) = 1" by code_simp
  have o: "nrows_out_of_range (train_matrix three_labels three_features) = 1" by code_simp
  from train_matrix_row_counts [of three_labels three_features] u
  have "map inmate_doc_number (train_matrix three_labels three_features)
        = map l_inmate_doc_number three_labels
      \<and> length (clean (train_matrix three_labels three_features))
        + nrows_isnan (train_matrix three_labels three_features)
        + nrows_out_of_range (train_matrix three_labels three_features) = length three_labels"
    by blast
  moreover have "map l_inmate_doc_number three_labels
      = [Some ''0000004'', Some ''0000006'', Some ''0000008'']"
    by (simp add: three_labels_def)
  ultimately show ?thesis using u c n o by simp
qed

text \<open>
  C7 as stated fails for a feature table with two rows for one entity: the entity is in
  the joined matrix twice, and the three counts add up to 2 for a label table of one row.
\<close>

theorem train_matrix_duplicated_entity:
  "map inmate_doc_number (train_matrix one_label two_features)
       = [Some ''0000004'', Some ''0000004'']
   \<and> length (clean (train_matrix one_label two_features))
        + nrows_isnan (train_matrix one_label two_features)
        + nrows_out_of_range (train_matrix one_label two_features) = 2
   \<and> length one_label = 1"
  by code_simp

end
